theory Spec2Isabelle
  imports Complex_Main "HOL-Library.AList"
begin

section \<open>Data frames\<close>

text \<open>
  The program keeps its data in pandas data frames. A cell is absent (\<open>NaN\<close>), a text or
  a number. A row is an association list from column name to cell, in column order; a
  frame is its list of column names and its rows. A number is the rational value of an
  \<open>int64\<close> or of a \<open>float64\<close>; the arithmetic on them wraps and rounds as below.
\<close>

datatype cell = NaN | Str string | Num rat

type_synonym row = "(string \<times> cell) list"

record frame =
  columns :: "string list"
  rows :: "row list"

datatype error =
  KeyError "string list" | TypeError | ZeroDivisionError | EmptyDataError | ParserError

text \<open>Sequencing: the first exception ends the computation.\<close>

definition and_then :: "error + 'a \<Rightarrow> ('a \<Rightarrow> error + 'b) \<Rightarrow> error + 'b" where
  "and_then r f = (case r of Inl e \<Rightarrow> Inl e | Inr x \<Rightarrow> f x)"

text \<open>\<open>row[c]\<close> on a row that has the column.\<close>

definition cell_at :: "row \<Rightarrow> string \<Rightarrow> cell" where
  "cell_at r c = (case map_of r c of Some v \<Rightarrow> v | None \<Rightarrow> NaN)"

text \<open>\<open>df[c]\<close>: the column as a series, or \<open>KeyError\<close>.\<close>

definition getitem :: "frame \<Rightarrow> string \<Rightarrow> error + cell list" where
  "getitem df c =
     (if c \<in> set (columns df) then Inr (map (\<lambda>r. cell_at r c) (rows df)) else Inl (KeyError [c]))"

text \<open>\<open>series == v\<close>, element by element; an absent cell equals nothing.\<close>

fun eq_cell :: "cell \<Rightarrow> cell \<Rightarrow> bool" where
  "eq_cell NaN _ = False"
| "eq_cell _ NaN = False"
| "eq_cell a b = (a = b)"

definition eq_scalar :: "cell list \<Rightarrow> cell \<Rightarrow> bool list" where
  "eq_scalar s v = map (\<lambda>c. eq_cell c v) s"

text \<open>\<open>df[mask]\<close>: the rows where the mask is true.\<close>

definition mask_rows :: "frame \<Rightarrow> bool list \<Rightarrow> frame" where
  "mask_rows df msk = df\<lparr>rows := map snd (filter fst (zip msk (rows df)))\<rparr>"

definition len :: "frame \<Rightarrow> nat" where
  "len df = length (rows df)"

section \<open>Numbers\<close>

text \<open>
  An \<open>int64\<close> sum wraps around: the result is the representative of the exact sum
  between \<open>- 2^63\<close> and \<open>2^63 - 1\<close>.
\<close>

definition wrap64 :: "int \<Rightarrow> int" where
  "wrap64 i = (i + 2 ^ 63) mod 2 ^ 64 - 2 ^ 63"

text \<open>
  A \<open>float64\<close> operation returns the exact result rounded to the nearest number with
  a significand of 53 bits, ties to the even significand (IEEE 754 binary64, subnormal
  numbers included). \<open>exponent x\<close> is the \<open>e\<close> with \<open>2^e \<le> x < 2^(e+1)\<close> for a
  positive \<open>x\<close>. Overflow is not modelled: a result of \<open>2^1024\<close> or more, which is
  \<open>inf\<close> in the source, is rounded like the others.
\<close>

function ilog2 :: "int \<Rightarrow> int" where
  "ilog2 n = (if n \<le> 1 then 0 else 1 + ilog2 (n div 2))"
  by pat_completeness auto
termination
  by (relation "measure nat") auto

declare ilog2.simps [simp del]

definition exponent :: "rat \<Rightarrow> int" where
  "exponent x =
     (if 1 \<le> x then ilog2 \<lfloor>x\<rfloor>
      else - (if \<lceil>1 / x\<rceil> \<le> 1 then 0 else ilog2 (\<lceil>1 / x\<rceil> - 1) + 1))"

definition pow2 :: "int \<Rightarrow> rat" where
  "pow2 e = (if 0 \<le> e then 2 ^ nat e else 1 / 2 ^ nat (- e))"

definition round_even :: "rat \<Rightarrow> int" where
  "round_even x =
     (let f = \<lfloor>x\<rfloor>; d = x - of_int f
      in if d < 1 / 2 then f else if 1 / 2 < d then f + 1 else if even f then f else f + 1)"

definition rnd :: "rat \<Rightarrow> rat" where
  "rnd x =
     (if x = 0 then 0
      else let e = max (exponent \<bar>x\<bar>) (- 1022); q = pow2 (e - 52)
           in q * of_int (round_even (x / q)))"

text \<open>
  The type of a numeric column: \<open>int64\<close> when every cell is an integer in range,
  \<open>float64\<close> otherwise (a fraction or an absent cell). A column of integral values is
  taken as \<open>int64\<close>, as pandas reads it from integer numerals.
\<close>

datatype dtype = Int64 | Float64

definition is_int64 :: "cell \<Rightarrow> bool" where
  "is_int64 c =
     (case c of Num q \<Rightarrow> q = of_int \<lfloor>q\<rfloor> \<and> - (2 ^ 63) \<le> q \<and> q < 2 ^ 63 | _ \<Rightarrow> False)"

definition dtype_of :: "cell list \<Rightarrow> dtype" where
  "dtype_of s = (if list_all is_int64 s then Int64 else Float64)"

text \<open>
  The numbers of a numeric series, absent cells skipped. The cost and score columns are
  numeric; a text among the numbers makes the arithmetic of the source end in a
  \<open>TypeError\<close>.
\<close>

fun present_values :: "cell list \<Rightarrow> error + rat list" where
  "present_values [] = Inr []"
| "present_values (NaN # cs) = present_values cs"
| "present_values (Num q # cs) = and_then (present_values cs) (\<lambda>qs. Inr (q # qs))"
| "present_values (Str t # cs) = Inl TypeError"

text \<open>
  Adding the numbers of a column of the given type: with wrap-around for \<open>int64\<close>, and
  for \<open>float64\<close> from left to right with a rounding after each addition. (numpy adds a
  long \<open>float64\<close> column in blocks, so its roundings may fall differently there.)
\<close>

definition add_all :: "dtype \<Rightarrow> rat list \<Rightarrow> rat" where
  "add_all dt qs =
     (case dt of
        Int64 \<Rightarrow> of_int (wrap64 (sum_list (map floor qs)))
      | Float64 \<Rightarrow> foldl (\<lambda>a q. rnd (a + q)) 0 qs)"

text \<open>\<open>series.sum()\<close> on a series of a column of type \<open>dt\<close>.\<close>

definition series_sum :: "dtype \<Rightarrow> cell list \<Rightarrow> error + rat" where
  "series_sum dt s = and_then (present_values s) (\<lambda>qs. Inr (add_all dt qs))"

text \<open>
  \<open>series.mean()\<close>: the \<open>float64\<close> sum of the present cells over their number,
  \<open>NaN\<close> when there is none.
\<close>

definition series_mean :: "cell list \<Rightarrow> error + cell" where
  "series_mean s =
     and_then (present_values s) (\<lambda>qs.
       Inr (if qs = [] then NaN else Num (rnd (add_all Float64 qs / of_nat (length qs)))))"

text \<open>
  Division: a zero divisor is an error (Python raises \<open>ZeroDivisionError\<close> on its own
  numbers, numpy yields \<open>inf\<close> or \<open>nan\<close>); otherwise both operands are taken as
  \<open>float64\<close> and the quotient is rounded. Python divides two of its integers by rounding
  the exact quotient once; for counts below \<open>2^53\<close> that is the same number.
\<close>

definition py_div :: "rat \<Rightarrow> rat \<Rightarrow> error + rat" where
  "py_div a b = (if b = 0 then Inl ZeroDivisionError else Inr (rnd (rnd a / rnd b)))"

section \<open>Metrics\<close>

text \<open>The dictionary that \<open>calculate_metrics\<close> returns.\<close>

record metrics =
  total_resources :: nat
  tagged_resources :: nat
  untagged_resources :: nat
  tagging_rate :: rat
  total_cost :: rat
  tagged_cost :: rat
  untagged_cost :: rat
  untagged_cost_pct :: rat
  avg_completeness :: cell

text \<open>\<open>df[df['Tagged'] == v]\<close>\<close>

definition tagged_as :: "frame \<Rightarrow> string \<Rightarrow> error + frame" where
  "tagged_as df v = and_then (getitem df ''Tagged'') (\<lambda>s. Inr (mask_rows df (eq_scalar s (Str v))))"

text \<open>
  \<open>sub['MonthlyCostUSD'].sum()\<close> for a selection \<open>sub\<close> of the rows of a frame whose
  cost column has type \<open>dt\<close>: a selection keeps the column types of its frame.
\<close>

definition cost_sum :: "dtype \<Rightarrow> frame \<Rightarrow> error + rat" where
  "cost_sum dt sub = and_then (getitem sub ''MonthlyCostUSD'') (series_sum dt)"

definition calculate_metrics :: "frame \<Rightarrow> error + metrics" where
  "calculate_metrics df =
     (let total_resources = len df in
      and_then (tagged_as df ''Yes'') (\<lambda>yes. let tagged_resources = len yes in
      and_then (tagged_as df ''No'') (\<lambda>no. let untagged_resources = len no in
      and_then (getitem df ''MonthlyCostUSD'') (\<lambda>costs. let dt = dtype_of costs in
      and_then (series_sum dt costs) (\<lambda>total_cost.
      and_then (and_then (tagged_as df ''Yes'') (cost_sum dt)) (\<lambda>tagged_cost.
      and_then (and_then (tagged_as df ''No'') (cost_sum dt)) (\<lambda>untagged_cost.
      and_then (and_then (getitem df ''TagCompletenessScore'') series_mean) (\<lambda>avg_completeness.
      and_then (if total_resources > 0
                then and_then (py_div (of_nat tagged_resources) (of_nat total_resources))
                       (\<lambda>q. Inr (rnd (q * 100)))
                else Inr 0) (\<lambda>tagging_rate.
      and_then (if total_cost > 0
                then and_then (py_div untagged_cost total_cost) (\<lambda>q. Inr (rnd (q * 100)))
                else Inr 0) (\<lambda>untagged_cost_pct.
      Inr \<lparr>total_resources = total_resources,
           tagged_resources = tagged_resources,
           untagged_resources = untagged_resources,
           tagging_rate = tagging_rate,
           total_cost = total_cost,
           tagged_cost = tagged_cost,
           untagged_cost = untagged_cost,
           untagged_cost_pct = untagged_cost_pct,
           avg_completeness = avg_completeness\<rparr>))))))))))"

section \<open>Tag completeness\<close>

definition tag_fields :: "string list" where
  "tag_fields = [''Department'', ''Project'', ''Environment'', ''Owner'', ''CostCenter'']"

text \<open>\<open>df[cs]\<close> with a list of names: the sub-frame of these columns, in the order asked.\<close>

definition select_columns :: "frame \<Rightarrow> string list \<Rightarrow> error + frame" where
  "select_columns df cs =
     (let missing = filter (\<lambda>c. c \<notin> set (columns df)) cs
      in if missing = []
         then Inr \<lparr>columns = cs, rows = map (\<lambda>r. map (\<lambda>c. (c, cell_at r c)) cs) (rows df)\<rparr>
         else Inl (KeyError missing))"

text \<open>\<open>sub.notna().sum(axis=1)\<close>: per row, how many cells are present.\<close>

definition notna_sum :: "frame \<Rightarrow> cell list" where
  "notna_sum sub = map (\<lambda>r. Num (of_nat (length (filter (\<lambda>(c, v). v \<noteq> NaN) r)))) (rows sub)"

text \<open>\<open>df[c] = values\<close>: the column is replaced where it stands, or added last.\<close>

definition setitem :: "frame \<Rightarrow> string \<Rightarrow> cell list \<Rightarrow> frame" where
  "setitem df c vals =
     \<lparr>columns = (if c \<in> set (columns df) then columns df else columns df @ [c]),
      rows = map (\<lambda>(v, r). AList.update c v r) (zip vals (rows df))\<rparr>"

text \<open>\<open>(series / n) * 100\<close>, in \<open>float64\<close>.\<close>

definition percent_of :: "nat \<Rightarrow> cell \<Rightarrow> cell" where
  "percent_of n c =
     (case c of Num q \<Rightarrow> Num (rnd (rnd (rnd q / rnd (of_nat n)) * 100)) | _ \<Rightarrow> NaN)"

text \<open>
  The three lines that (re)compute the two derived columns. They stand twice in the
  source, in \<open>load_data\<close> and after the merge loop of \<open>show_remediation_page\<close>.
\<close>

definition with_completeness :: "frame \<Rightarrow> error + frame" where
  "with_completeness df =
     and_then (select_columns df tag_fields) (\<lambda>sub.
       let df1 = setitem df ''TagCompletenessScore'' (notna_sum sub) in
       and_then (getitem df1 ''TagCompletenessScore'') (\<lambda>score.
         Inr (setitem df1 ''TagCompletenessPercentage''
                (map (percent_of (length tag_fields)) score))))"

section \<open>Remediation merge\<close>

definition edit_columns :: "string list" where
  "edit_columns = [''ResourceID'', ''Service'', ''Region'', ''Department'', ''Project'',
     ''Environment'', ''Owner'', ''CostCenter'', ''MonthlyCostUSD'', ''Tagged'']"

text \<open>
  \<open>df.loc[mask, c] = v\<close>: the cell of column \<open>c\<close> becomes \<open>v\<close> in the rows where the
  mask is true. For a column the frame does not have, pandas adds it, absent in the
  other rows. A frame carries no column types here, and the assignment is the one of a
  column that can hold \<open>v\<close>: a text column takes a text, a number or an absent value,
  a numeric column a number or an absent value. Writing a text into a numeric column,
  or into a column that holds absent values only and is therefore \<open>float64\<close>, changes
  the column's type in pandas 2, as this definition does, and raises \<open>TypeError\<close> in
  pandas 3.
\<close>

definition loc_set :: "frame \<Rightarrow> bool list \<Rightarrow> string \<Rightarrow> cell \<Rightarrow> frame" where
  "loc_set df msk c v =
     (if c \<in> set (columns df)
      then df\<lparr>rows := map (\<lambda>(m, r). if m then AList.update c v r else r) (zip msk (rows df))\<rparr>
      else \<lparr>columns = columns df @ [c],
            rows = map (\<lambda>(m, r). r @ [(c, if m then v else NaN)]) (zip msk (rows df))\<rparr>)"

text \<open>\<open>row[c]\<close> for a row that \<open>iterrows\<close> yields from a frame with columns \<open>cols\<close>.\<close>

definition series_get :: "string list \<Rightarrow> row \<Rightarrow> string \<Rightarrow> error + cell" where
  "series_get cols r c = (if c \<in> set cols then Inr (cell_at r c) else Inl (KeyError [c]))"

text \<open>
  The page function mutates data frame objects, so the merge is modelled over a store:
  a heap is the list of the frames allocated so far and a variable holds an index into it.
  \<open>df.copy()\<close> allocates a new frame with the same content.
\<close>

type_synonym heap = "frame list"

definition copy :: "nat \<Rightarrow> heap \<Rightarrow> nat \<times> heap" where
  "copy a h = (length h, h @ [h ! a])"

text \<open>One round of the outer loop: the mask, then the assignment of every edit column.\<close>

definition apply_edit :: "string list \<Rightarrow> nat \<Rightarrow> row \<Rightarrow> heap \<Rightarrow> error + heap" where
  "apply_edit ecols remediated_df r h =
     and_then (getitem (h ! remediated_df) ''ResourceID'') (\<lambda>ids.
     and_then (series_get ecols r ''ResourceID'') (\<lambda>rid.
       let msk = eq_scalar ids rid in
       Inr (fold (\<lambda>col h'. if col \<in> set ecols
                            then h'[remediated_df := loc_set (h' ! remediated_df) msk col (cell_at r col)]
                            else h')
              edit_columns h)))"

fun apply_edits :: "string list \<Rightarrow> nat \<Rightarrow> row list \<Rightarrow> heap \<Rightarrow> error + heap" where
  "apply_edits ecols remediated_df [] h = Inr h"
| "apply_edits ecols remediated_df (r # rest) h =
     and_then (apply_edit ecols remediated_df r h) (apply_edits ecols remediated_df rest)"

text \<open>
  Lines 343 to 353 of \<open>show_remediation_page\<close>: \<open>df\<close> and \<open>edited_df\<close> are the
  addresses of the base frame and of the frame the data editor returned; the result is
  the address of \<open>remediated_df\<close> and the heap after the merge.
\<close>

definition remediate :: "nat \<Rightarrow> nat \<Rightarrow> heap \<Rightarrow> error + nat \<times> heap" where
  "remediate df edited_df h =
     (let (remediated_df, h1) = copy df h in
      and_then (apply_edits (columns (h1 ! edited_df)) remediated_df (rows (h1 ! edited_df)) h1)
        (\<lambda>h2.
      and_then (with_completeness (h2 ! remediated_df)) (\<lambda>scored.
        Inr (remediated_df, h2[remediated_df := scored]))))"

text \<open>The merge as a function of two frame values: the merged frame, read off the heap.\<close>

definition merged :: "frame \<Rightarrow> frame \<Rightarrow> error + frame" where
  "merged base edits = and_then (remediate 0 1 [base, edits]) (\<lambda>(a, h). Inr (h ! a))"

text \<open>
  What the page hands to the data editor: the rows with \<open>Tagged == 'No'\<close>, restricted to
  the edit columns.
\<close>

definition untagged_view :: "frame \<Rightarrow> error + frame" where
  "untagged_view df = and_then (tagged_as df ''No'') (\<lambda>untagged_df. select_columns untagged_df edit_columns)"

section \<open>Loading and exporting\<close>

text \<open>
  A CSV document is modelled after lexing: a header and the records. A field of a column
  that pandas reads as numeric is given as the number it denotes, every other field as
  its text. Quoting, delimiters, the syntax of numerals and the choice of a column's type
  belong to pandas; a number field holds the \<open>int64\<close> or \<open>float64\<close> value that pandas
  reads from it, and \<open>to_csv\<close> writes a number so that \<open>read_csv\<close> reads the same
  number back. The model covers documents whose column names are distinct.
\<close>

datatype field = Text string | Number rat

record csv =
  header :: "string list"
  body :: "field list list"

text \<open>The \<open>na_values\<close> argument of the source's \<open>read_csv\<close> call.\<close>

definition na_values :: "string list" where
  "na_values = ['''', '' '']"

text \<open>
  The markers pandas reads as absent by default, as its documentation lists them. The
  source leaves \<open>keep_default_na\<close> alone, so they apply besides \<open>na_values\<close>. The
  loader takes the default list as a parameter; this constant instantiates it.
\<close>

definition pandas_default_na :: "string list" where
  "pandas_default_na = ['''', ''#N/A'', ''#N/A N/A'', ''#NA'', ''-1.#IND'', ''-1.#QNAN'',
     ''-NaN'', ''-nan'', ''1.#IND'', ''1.#QNAN'', ''<NA>'', ''N/A'', ''NA'', ''NULL'', ''NaN'',
     ''None'', ''n/a'', ''nan'', ''null'']"

definition read_field :: "string list \<Rightarrow> field \<Rightarrow> cell" where
  "read_field markers f =
     (case f of Text s \<Rightarrow> if s \<in> set markers then NaN else Str s | Number q \<Rightarrow> Num q)"

text \<open>
  \<open>pd.read_csv\<close> on the lexed document. It raises \<open>EmptyDataError\<close> when there is no
  header. A blank line, which has no field, is skipped. The first record sets the width
  of the table when it is longer than the header, and its surplus leading fields are then
  row labels, not columns. A later record that is longer than this width raises
  \<open>ParserError\<close>; a shorter record is filled up with absent cells.
\<close>

definition read_csv :: "string list \<Rightarrow> string list \<Rightarrow> csv \<Rightarrow> error + frame" where
  "read_csv dflt extra raw =
     (let recs = filter (\<lambda>fs. fs \<noteq> []) (body raw);
          n = length (header raw);
          w = (case recs of [] \<Rightarrow> n | first # later \<Rightarrow> max n (length first))
      in if header raw = [] then Inl EmptyDataError
         else if list_ex (\<lambda>fs. w < length fs) recs then Inl ParserError
         else Inr \<lparr>columns = header raw,
                  rows = map (\<lambda>fs. zip (header raw)
                      (drop (w - n) (map (read_field (extra @ dflt)) fs @ replicate (w - length fs) NaN)))
                    recs\<rparr>)"

text \<open>\<open>df.drop_duplicates()\<close> keeps the first of each group of equal rows.\<close>

fun keep_first :: "'a list \<Rightarrow> 'a list" where
  "keep_first [] = []"
| "keep_first (x # xs) = x # keep_first (filter (\<lambda>y. y \<noteq> x) xs)"

definition drop_duplicates :: "frame \<Rightarrow> frame" where
  "drop_duplicates df = df\<lparr>rows := keep_first (rows df)\<rparr>"

definition load_data :: "string list \<Rightarrow> csv \<Rightarrow> error + frame" where
  "load_data dflt raw =
     and_then (read_csv dflt na_values raw) (\<lambda>df.
       let df = drop_duplicates df
       in with_completeness df)"



section \<open>Notions used in the statements\<close>

text \<open>A cell of a numeric column is a number or absent.\<close>

definition numeric :: "cell \<Rightarrow> bool" where
  "numeric c = (case c of Str t \<Rightarrow> False | _ \<Rightarrow> True)"

definition numeric_col :: "frame \<Rightarrow> string \<Rightarrow> bool" where
  "numeric_col df c = (c \<in> set (columns df) \<and> list_all (\<lambda>r. numeric (cell_at r c)) (rows df))"

text \<open>The numbers of a numeric series, and the cost cells of a list of rows.\<close>

definition values_of :: "cell list \<Rightarrow> rat list" where
  "values_of s = concat (map (\<lambda>c. case c of Num q \<Rightarrow> [q] | _ \<Rightarrow> []) s)"

definition cost_cells :: "row list \<Rightarrow> cell list" where
  "cost_cells rs = map (\<lambda>r. cell_at r ''MonthlyCostUSD'') rs"

text \<open>
  The cost that the source computes for a selection of rows of a frame whose cost column
  has type \<open>dt\<close>, and the exact sum of their costs.
\<close>

definition costs :: "dtype \<Rightarrow> row list \<Rightarrow> rat" where
  "costs dt rs = add_all dt (values_of (cost_cells rs))"

definition exact_costs :: "row list \<Rightarrow> rat" where
  "exact_costs rs = sum_list (values_of (cost_cells rs))"

text \<open>Every cost is absent or a non-negative whole number.\<close>

definition whole :: "cell \<Rightarrow> bool" where
  "whole c = (case c of NaN \<Rightarrow> True | Num q \<Rightarrow> 0 \<le> q \<and> q = of_int \<lfloor>q\<rfloor> | Str t \<Rightarrow> False)"

definition whole_costs :: "row list \<Rightarrow> bool" where
  "whole_costs rs = list_all whole (cost_cells rs)"

text \<open>A list of non-negative whole numbers.\<close>

definition naturals :: "rat list \<Rightarrow> bool" where
  "naturals qs = list_all (\<lambda>q. 0 \<le> q \<and> q = of_int \<lfloor>q\<rfloor>) qs"

definition is_tagged :: "string \<Rightarrow> row \<Rightarrow> bool" where
  "is_tagged v r = (cell_at r ''Tagged'' = Str v)"

text \<open>The number of tag fields of a row that are not absent.\<close>

definition present :: "row \<Rightarrow> nat" where
  "present r = length (filter (\<lambda>c. cell_at r c \<noteq> NaN) tag_fields)"

text \<open>What recomputing the derived columns does to one row and to the column names.\<close>

definition score_row :: "row \<Rightarrow> row" where
  "score_row r =
     AList.update ''TagCompletenessPercentage'' (Num (of_nat (present r) / 5 * 100))
       (AList.update ''TagCompletenessScore'' (Num (of_nat (present r))) r)"

definition score_columns :: "string list \<Rightarrow> string list" where
  "score_columns cs =
     (let cs1 = (if ''TagCompletenessScore'' \<in> set cs then cs else cs @ [''TagCompletenessScore''])
      in if ''TagCompletenessPercentage'' \<in> set cs1 then cs1
         else cs1 @ [''TagCompletenessPercentage''])"

text \<open>
  What one round of the merge loop does to one row of the base frame: the row takes the
  cells of the edited row \<open>e\<close> in the columns \<open>cols\<close>, if its \<open>ResourceID\<close> equals that
  of \<open>e\<close>.
\<close>

definition edit_cells :: "string list \<Rightarrow> row \<Rightarrow> string list \<Rightarrow> row \<Rightarrow> row" where
  "edit_cells ecols e cols r =
     fold (\<lambda>col r'. if col \<in> set ecols then AList.update col (cell_at e col) r' else r') cols r"

definition edit_row :: "string list \<Rightarrow> row \<Rightarrow> row \<Rightarrow> row" where
  "edit_row ecols e r =
     (if eq_cell (cell_at r ''ResourceID'') (cell_at e ''ResourceID'')
      then edit_cells ecols e edit_columns r else r)"

text \<open>
  The edited frame has a \<open>ResourceID\<close> column, and the frame \<open>d\<close> has every edit
  column that the edited frame has.
\<close>

definition covers :: "string list \<Rightarrow> frame \<Rightarrow> bool" where
  "covers ecols d = (''ResourceID'' \<in> set ecols \<and>
      list_all (\<lambda>c. c \<in> set ecols \<longrightarrow> c \<in> set (columns d)) edit_columns)"


text \<open>No record is longer than the header.\<close>

definition fits :: "csv \<Rightarrow> bool" where
  "fits raw = list_all (\<lambda>fs. length fs \<le> length (header raw)) (body raw)"

text \<open>The records of a document: its lines after the header, blank lines left out.\<close>

definition records :: "csv \<Rightarrow> field list list" where
  "records raw = filter (\<lambda>fs. fs \<noteq> []) (body raw)"

text \<open>
  The row that \<open>read_csv\<close>, called as \<open>load_data\<close> calls it, makes of one record of
  a document that fits.
\<close>

definition read_row :: "string list \<Rightarrow> csv \<Rightarrow> field list \<Rightarrow> row" where
  "read_row dflt raw fs =
     zip (header raw)
       (map (read_field (na_values @ dflt)) fs @ replicate (length (header raw) - length fs) NaN)"

text \<open>
  The frame \<open>load_data\<close> returns for a document that fits and has the five tag
  fields.
\<close>

definition loaded :: "string list \<Rightarrow> csv \<Rightarrow> frame" where
  "loaded dflt raw =
     \<lparr>columns = score_columns (header raw),
      rows = map score_row (keep_first (map (read_row dflt raw) (records raw)))\<rparr>"





text \<open>The two derived columns.\<close>

definition derived_columns :: "string list" where
  "derived_columns = [''TagCompletenessScore'', ''TagCompletenessPercentage'']"

text \<open>
  A frame is scored when it has the tag fields and the derived columns and recomputing
  the derived columns changes no row.
\<close>

definition scored :: "frame \<Rightarrow> bool" where
  "scored df = (set tag_fields \<subseteq> set (columns df) \<and> set derived_columns \<subseteq> set (columns df)
     \<and> list_all (\<lambda>r. score_row r = r) (rows df))"

section \<open>Example data\<close>

text \<open>The input schema, followed by the two derived columns.\<close>

definition input_header :: "string list" where
  "input_header = [''ResourceID'', ''Service'', ''Region'', ''MonthlyCostUSD'', ''Tagged'',
     ''Department'', ''Project'', ''Environment'', ''Owner'', ''CostCenter'']"

definition frame_columns :: "string list" where
  "frame_columns = input_header @ [''TagCompletenessScore'', ''TagCompletenessPercentage'']"

text \<open>
  Two resources: \<open>R1\<close>, untagged, no tag field, 100 a month; \<open>R2\<close>, tagged, department
  \<open>Eng\<close>, 50 a month.
\<close>

definition two_resources :: frame where
  "two_resources = \<lparr>columns = frame_columns, rows =
     [zip frame_columns [Str ''R1'', Str ''EC2'', Str ''us-west-2'', Num 100, Str ''No'',
        NaN, NaN, NaN, NaN, NaN, Num 0, Num 0],
      zip frame_columns [Str ''R2'', Str ''S3'', Str ''us-west-2'', Num 50, Str ''Yes'',
        Str ''Eng'', NaN, NaN, NaN, NaN, Num 1, Num 20]]\<rparr>"

definition no_resources :: frame where
  "no_resources = \<lparr>columns = frame_columns, rows = []\<rparr>"


definition inventory :: frame where
  "inventory = \<lparr>columns = frame_columns, rows =
     [zip frame_columns [Str ''R1'', Str ''EC2'', Str ''us-west-2'', Num 100, Str ''No'',
        Str ''Eng'', NaN, Str ''Dev'', NaN, NaN, Num 2, Num 40],
      zip frame_columns [Str ''R2'', Str ''S3'', Str ''us-west-2'', Num 50, Str ''Yes'',
        Str ''Eng'', Str ''Y'', Str ''Prod'', Str ''Ann'', Str ''CC2'', Num 5, Num 100],
      zip frame_columns [Str ''R3'', Str ''RDS'', Str ''us-east-1'', Num 75, Str ''No'',
        Str ''Ops'', Str ''Z'', Str ''Test'', Str ''Joe'', Str ''CC3'', Num 5, Num 100]]\<rparr>"

text \<open>
  What the data editor may return for \<open>inventory\<close>: its two untagged rows, \<open>R1\<close> with
  the missing tag fields filled in and \<open>Tagged\<close> set to \<open>Yes\<close>, \<open>R3\<close> as it was; and
  the frame the merge makes of it.
\<close>

definition inventory_edit :: frame where
  "inventory_edit = \<lparr>columns = edit_columns, rows =
     [zip edit_columns [Str ''R1'', Str ''EC2'', Str ''us-west-2'', Str ''Eng'', Str ''X'',
        Str ''Dev'', Str ''Bob'', Str ''CC1'', Num 100, Str ''Yes''],
      zip edit_columns [Str ''R3'', Str ''RDS'', Str ''us-east-1'', Str ''Ops'', Str ''Z'',
        Str ''Test'', Str ''Joe'', Str ''CC3'', Num 75, Str ''No'']]\<rparr>"

definition inventory_remediated :: frame where
  "inventory_remediated = \<lparr>columns = frame_columns, rows =
     [zip frame_columns [Str ''R1'', Str ''EC2'', Str ''us-west-2'', Num 100, Str ''Yes'',
        Str ''Eng'', Str ''X'', Str ''Dev'', Str ''Bob'', Str ''CC1'', Num 5, Num 100],
      zip frame_columns [Str ''R2'', Str ''S3'', Str ''us-west-2'', Num 50, Str ''Yes'',
        Str ''Eng'', Str ''Y'', Str ''Prod'', Str ''Ann'', Str ''CC2'', Num 5, Num 100],
      zip frame_columns [Str ''R3'', Str ''RDS'', Str ''us-east-1'', Num 75, Str ''No'',
        Str ''Ops'', Str ''Z'', Str ''Test'', Str ''Joe'', Str ''CC3'', Num 5, Num 100]]\<rparr>"

text \<open>
  An edit of \<open>R1\<close> with an environment and a tagged flag outside the two enumerations,
  and an edit of \<open>R1\<close> in which the operator typed \<open>N/A\<close> as the owner.
\<close>

definition invalid_edit :: frame where
  "invalid_edit = \<lparr>columns = edit_columns, rows =
     [zip edit_columns [Str ''R1'', Str ''EC2'', Str ''us-west-2'', Str ''Eng'', NaN,
        Str ''Staging'', NaN, NaN, Num 100, Str ''Maybe''],
      zip edit_columns [Str ''R3'', Str ''RDS'', Str ''us-east-1'', Str ''Ops'', Str ''Z'',
        Str ''Test'', Str ''Joe'', Str ''CC3'', Num 75, Str ''No'']]\<rparr>"


text \<open>
  A CSV document in which two different rows carry the same \<open>ResourceID\<close>; both are
  untagged and have a text in every tag field.
\<close>

definition twin_csv :: csv where
  "twin_csv = \<lparr>header = input_header, body =
     [[Text ''R1'', Text ''EC2'', Text ''us-east-1'', Number 10, Text ''No'',
       Text ''Eng'', Text ''X'', Text ''Prod'', Text ''Bob'', Text ''CC1''],
      [Text ''R1'', Text ''S3'', Text ''us-west-2'', Number 20, Text ''No'',
       Text ''Ops'', Text ''Y'', Text ''Dev'', Text ''Ann'', Text ''CC2'']]\<rparr>"

text \<open>
  A CSV document with none of \<open>ResourceID\<close>, \<open>Service\<close>, \<open>Region\<close>, \<open>MonthlyCostUSD\<close>
  and \<open>Tagged\<close>: its columns are the five tag fields. A document without the \<open>Owner\<close>
  column, and the empty document.
\<close>

definition tags_only_csv :: csv where
  "tags_only_csv = \<lparr>header = tag_fields, body =
     [[Text ''Eng'', Text ''X'', Text '''', Text ''Bob'', Text '''']]\<rparr>"

definition no_owner_csv :: csv where
  "no_owner_csv = \<lparr>header = [''ResourceID'', ''Service'', ''Region'', ''MonthlyCostUSD'',
       ''Tagged'', ''Department'', ''Project'', ''Environment'', ''CostCenter''], body =
     [[Text ''R1'', Text ''EC2'', Text ''us-west-2'', Number 100, Text ''No'',
       Text ''Eng'', Text ''X'', Text '''', Text '''']]\<rparr>"

definition empty_csv :: csv where
  "empty_csv = \<lparr>header = [], body = []\<rparr>"

text \<open>
  One resource whose Department is two spaces, Project one space, Environment empty,
  Owner a tab and CostCenter three spaces.
\<close>

definition blank_cells_csv :: csv where
  "blank_cells_csv = \<lparr>header = input_header, body =
     [[Text ''R1'', Text ''EC2'', Text ''us-west-2'', Number 100, Text ''No'',
       Text ''  '', Text '' '', Text '''', Text [CHR 0x09], Text ''   '']]\<rparr>"



section \<open>The metrics computation\<close>

lemma and_then_Inr: "and_then (Inr x) f = f x"
  by (simp add: and_then_def)

lemma eq_cell_Str: "eq_cell c (Str v) = (c = Str v)"
  by (cases c) auto

lemma select_by_map: "map snd (filter fst (zip (map p xs) xs)) = filter p xs"
  by (induction xs) auto

lemma tagged_as_eq:
  "''Tagged'' \<in> set (columns df) \<Longrightarrow>
   tagged_as df v = Inr (df\<lparr>rows := filter (is_tagged v) (rows df)\<rparr>)"
  by (simp add: tagged_as_def getitem_def and_then_def mask_rows_def eq_scalar_def comp_def
      eq_cell_Str is_tagged_def [abs_def]
      select_by_map [of "\<lambda>r. cell_at r ''Tagged'' = Str v", symmetric])

lemma present_values_numeric: "list_all numeric s \<Longrightarrow> present_values s = Inr (values_of s)"
proof (induction s)
  case Nil
  then show ?case by (simp add: values_of_def)
next
  case (Cons c s)
  then show ?case
    by (cases c) (auto simp: numeric_def and_then_def values_of_def)
qed

lemma cost_sum_costs:
  assumes "''MonthlyCostUSD'' \<in> set (columns df)"
    and "list_all (\<lambda>r. numeric (cell_at r ''MonthlyCostUSD'')) rs"
  shows "cost_sum dt (df\<lparr>rows := rs\<rparr>) = Inr (costs dt rs)"
  using assms present_values_numeric [of "cost_cells rs"]
  by (simp add: cost_sum_def series_sum_def getitem_def and_then_def list_all_iff costs_def
      cost_cells_def)

text \<open>
  On a frame that has the three columns it reads, with numeric costs and scores,
  \<open>calculate_metrics\<close> returns, and every field but the average has a closed form.
\<close>

lemma calculate_metrics_eq:
  assumes T: "''Tagged'' \<in> set (columns df)"
    and C: "numeric_col df ''MonthlyCostUSD''"
    and S: "numeric_col df ''TagCompletenessScore''"
  shows "\<exists>avg. calculate_metrics df = Inr
     \<lparr>total_resources = length (rows df),
      tagged_resources = length (filter (is_tagged ''Yes'') (rows df)),
      untagged_resources = length (filter (is_tagged ''No'') (rows df)),
      tagging_rate = (if rows df = [] then 0
         else rnd (rnd (rnd (of_nat (length (filter (is_tagged ''Yes'') (rows df))))
                / rnd (of_nat (length (rows df)))) * 100)),
      total_cost = costs (dtype_of (cost_cells (rows df))) (rows df),
      tagged_cost = costs (dtype_of (cost_cells (rows df))) (filter (is_tagged ''Yes'') (rows df)),
      untagged_cost = costs (dtype_of (cost_cells (rows df))) (filter (is_tagged ''No'') (rows df)),
      untagged_cost_pct =
        (if costs (dtype_of (cost_cells (rows df))) (rows df) > 0
         then rnd (rnd (rnd (costs (dtype_of (cost_cells (rows df)))
                               (filter (is_tagged ''No'') (rows df)))
                / rnd (costs (dtype_of (cost_cells (rows df))) (rows df))) * 100)
         else 0),
      avg_completeness = avg\<rparr>"
proof -
  let ?dt = "dtype_of (cost_cells (rows df))"
  have c0: "''MonthlyCostUSD'' \<in> set (columns df)"
    and c1: "list_all (\<lambda>r. numeric (cell_at r ''MonthlyCostUSD'')) (rows df)"
    using C by (simp_all add: numeric_col_def)
  have cf: "list_all (\<lambda>r. numeric (cell_at r ''MonthlyCostUSD'')) (filter P (rows df))" for P
    using c1 by (simp add: list_all_iff)
  have col: "getitem df ''MonthlyCostUSD'' = Inr (cost_cells (rows df))"
    using c0 by (simp add: getitem_def cost_cells_def)
  have total: "series_sum ?dt (cost_cells (rows df)) = Inr (costs ?dt (rows df))"
    using c1 present_values_numeric [of "cost_cells (rows df)"]
    by (simp add: series_sum_def and_then_def costs_def cost_cells_def list_all_iff)
  have part: "and_then (tagged_as df v) (cost_sum ?dt) =
      Inr (costs ?dt (filter (is_tagged v) (rows df)))" for v
    using cost_sum_costs [OF c0 cf [of "is_tagged v"]]
    by (simp add: tagged_as_eq [OF T] and_then_def)
  have cnt: "and_then (tagged_as df v) f = f (df\<lparr>rows := filter (is_tagged v) (rows df)\<rparr>)"
    for v and f :: "frame \<Rightarrow> error + metrics"
    by (simp add: tagged_as_eq [OF T] and_then_def)
  obtain avg where avg: "and_then (getitem df ''TagCompletenessScore'') series_mean = Inr avg"
    using S present_values_numeric [of "map (\<lambda>r. cell_at r ''TagCompletenessScore'') (rows df)"]
    by (simp add: numeric_col_def getitem_def and_then_def series_mean_def list_all_iff)
  have div: "0 < b \<Longrightarrow> py_div a b = Inr (rnd (rnd a / rnd b))" for a b
    by (simp add: py_div_def)
  show ?thesis
    unfolding calculate_metrics_def Let_def cnt col and_then_Inr total part avg
    by (rule exI [of _ avg]) (auto simp: and_then_Inr div len_def)
qed

text \<open>No input makes \<open>calculate_metrics\<close> divide by zero: both divisions are guarded.\<close>

lemma and_then_avoids:
  "r \<noteq> Inl e \<Longrightarrow> (\<And>x. f x \<noteq> Inl e) \<Longrightarrow> and_then r f \<noteq> Inl e"
  by (cases r) (simp_all add: and_then_def)

lemma present_values_no_zero_division: "present_values s \<noteq> Inl ZeroDivisionError"
  by (induction s rule: present_values.induct) (auto simp: and_then_def split: sum.splits)

lemma getitem_no_zero_division: "getitem d c \<noteq> Inl ZeroDivisionError"
  by (simp add: getitem_def)

lemma calculate_metrics_no_zero_division: "calculate_metrics df \<noteq> Inl ZeroDivisionError"
proof -
  have tag: "tagged_as d v \<noteq> Inl ZeroDivisionError" for d v
    unfolding tagged_as_def by (intro and_then_avoids getitem_no_zero_division) simp
  have sum: "series_sum dt s \<noteq> Inl ZeroDivisionError" for dt s
    unfolding series_sum_def by (intro and_then_avoids present_values_no_zero_division) simp
  have cost: "cost_sum dt d \<noteq> Inl ZeroDivisionError" for dt d
    unfolding cost_sum_def by (intro and_then_avoids getitem_no_zero_division sum)
  have mean: "series_mean s \<noteq> Inl ZeroDivisionError" for s
    unfolding series_mean_def by (intro and_then_avoids present_values_no_zero_division) simp
  have rate: "(if (0::nat) < n then and_then (py_div a (of_nat n)) (\<lambda>q. Inr (rnd (q * 100))) else Inr 0)
      \<noteq> Inl ZeroDivisionError" for n a
    by (simp add: py_div_def and_then_def)
  have pct: "(if (0::rat) < t then and_then (py_div u t) (\<lambda>q. Inr (rnd (q * 100))) else Inr 0)
      \<noteq> Inl ZeroDivisionError" for t u
    by (simp add: py_div_def and_then_def)
  show ?thesis
    unfolding calculate_metrics_def Let_def
    by (intro and_then_avoids tag sum cost mean rate pct getitem_no_zero_division) simp
qed

lemma disjoint_filters:
  "(\<And>x. \<not> (P x \<and> Q x)) \<Longrightarrow> length (filter P xs) + length (filter Q xs) \<le> length xs"
  by (induction xs) auto

text \<open>
  C4. On the empty dataset (a frame with the columns and no row) the metrics
  computation returns, with \<open>tagging_rate = 0\<close> and \<open>untagged_cost_pct = 0\<close>: the
  division by the row count is skipped when there is no row and the division by the
  total cost is skipped when the total cost is not positive, so neither divides by zero.
\<close>

theorem metrics_of_empty_dataset:
  assumes "rows df = []"
    and "''Tagged'' \<in> set (columns df)"
    and "''MonthlyCostUSD'' \<in> set (columns df)"
    and "''TagCompletenessScore'' \<in> set (columns df)"
  shows "\<exists>m. calculate_metrics df = Inr m \<and> tagging_rate m = 0 \<and> untagged_cost_pct m = 0
           \<and> total_resources m = 0 \<and> total_cost m = 0"
proof -
  have nc: "numeric_col df ''MonthlyCostUSD''" "numeric_col df ''TagCompletenessScore''"
    using assms by (simp_all add: numeric_col_def)
  have zero: "costs dt [] = 0" for dt
    by (cases dt) (simp_all add: costs_def cost_cells_def values_of_def add_all_def wrap64_def)
  from calculate_metrics_eq [OF assms(2) nc] obtain m where
    "calculate_metrics df = Inr m" "tagging_rate m = 0" "untagged_cost_pct m = 0"
    "total_resources m = 0" "total_cost m = 0"
    using assms(1) by (auto simp: zero)
  then show ?thesis by blast
qed

theorem metrics_of_empty_dataset_witness:
  "calculate_metrics no_resources =
     Inr \<lparr>total_resources = 0, tagged_resources = 0, untagged_resources = 0, tagging_rate = 0,
          total_cost = 0, tagged_cost = 0, untagged_cost = 0, untagged_cost_pct = 0,
          avg_completeness = NaN\<rparr>"
proof -
  have "\<exists>m. calculate_metrics no_resources = Inr m \<and> tagging_rate m = 0 \<and> untagged_cost_pct m = 0
           \<and> total_resources m = 0 \<and> total_cost m = 0"
    by (rule metrics_of_empty_dataset)
      (simp_all add: no_resources_def frame_columns_def input_header_def)
  then obtain m where m: "calculate_metrics no_resources = Inr m" and "tagging_rate m = 0"
    and "untagged_cost_pct m = 0" and "total_resources m = 0" and "total_cost m = 0"
    by blast
  moreover have "calculate_metrics no_resources =
     Inr \<lparr>total_resources = total_resources m, tagged_resources = 0, untagged_resources = 0,
          tagging_rate = tagging_rate m, total_cost = total_cost m, tagged_cost = 0,
          untagged_cost = 0, untagged_cost_pct = untagged_cost_pct m, avg_completeness = NaN\<rparr>"
  proof -
    have "calculate_metrics no_resources =
       Inr \<lparr>total_resources = 0, tagged_resources = 0, untagged_resources = 0, tagging_rate = 0,
          total_cost = 0, tagged_cost = 0, untagged_cost = 0, untagged_cost_pct = 0,
          avg_completeness = NaN\<rparr>"
      by code_simp
    with m show ?thesis by auto
  qed
  ultimately show ?thesis by simp
qed

text \<open>
  C5. On every dataset with a \<open>Tagged\<close> column and numeric costs and scores, the metrics
  computation returns; \<open>tagged_resources\<close> is the number of rows whose \<open>Tagged\<close> cell is
  the text \<open>Yes\<close>, \<open>untagged_resources\<close> the number of rows where it is the text \<open>No\<close>,
  rows with any other value, absent included, are in neither, and the two counts together
  do not exceed \<open>total_resources\<close>, the number of rows.
\<close>

theorem tagged_and_untagged_counts:
  assumes "''Tagged'' \<in> set (columns df)"
    and "numeric_col df ''MonthlyCostUSD''"
    and "numeric_col df ''TagCompletenessScore''"
  shows "\<exists>m. calculate_metrics df = Inr m
     \<and> total_resources m = length (rows df)
     \<and> tagged_resources m = length (filter (\<lambda>r. cell_at r ''Tagged'' = Str ''Yes'') (rows df))
     \<and> untagged_resources m = length (filter (\<lambda>r. cell_at r ''Tagged'' = Str ''No'') (rows df))
     \<and> tagged_resources m + untagged_resources m \<le> total_resources m"
proof -
  have "length (filter (is_tagged ''Yes'') (rows df)) + length (filter (is_tagged ''No'') (rows df))
      \<le> length (rows df)"
    by (rule disjoint_filters) (simp add: is_tagged_def)
  with calculate_metrics_eq [OF assms] show ?thesis
    by (auto simp: is_tagged_def [abs_def])
qed

theorem tagged_and_untagged_counts_witness:
  "\<exists>m. calculate_metrics two_resources = Inr m \<and> total_resources m = 2
     \<and> tagged_resources m = 1 \<and> untagged_resources m = 1"
proof -
  have cols: "''Tagged'' \<in> set (columns two_resources)"
    by (simp add: two_resources_def frame_columns_def input_header_def)
  have cost: "numeric_col two_resources ''MonthlyCostUSD''"
    by (simp add: numeric_col_def numeric_def two_resources_def frame_columns_def
        input_header_def cell_at_def)
  have score: "numeric_col two_resources ''TagCompletenessScore''"
    by (simp add: numeric_col_def numeric_def two_resources_def frame_columns_def
        input_header_def cell_at_def)
  from tagged_and_untagged_counts [OF cols cost score] show ?thesis
    by (auto simp: two_resources_def frame_columns_def input_header_def cell_at_def
        numeral_2_eq_2)
qed

section \<open>The cost sums\<close>





lemma naturals_values: "list_all whole s \<Longrightarrow> naturals (values_of s)"
proof (induction s)
  case Nil
  then show ?case by (simp add: naturals_def values_of_def)
next
  case (Cons c s)
  then show ?case by (cases c) (auto simp: naturals_def values_of_def whole_def)
qed

lemma naturals_sum:
  "naturals qs \<Longrightarrow> 0 \<le> sum_list qs \<and> sum_list qs = of_int (sum_list (map floor qs))"
proof (induction qs)
  case Nil
  then show ?case by simp
next
  case (Cons q qs)
  then have q: "q = of_int \<lfloor>q\<rfloor>" "0 \<le> q" and ih: "0 \<le> sum_list qs"
    "sum_list qs = of_int (sum_list (map floor qs))"
    by (simp_all add: naturals_def)
  have "sum_list (q # qs) = of_int \<lfloor>q\<rfloor> + of_int (sum_list (map floor qs))"
    using q(1) ih(2) by simp
  then show ?case using q(2) ih(1) by simp
qed






lemma exact_costs_nonneg: "whole_costs rs \<Longrightarrow> 0 \<le> exact_costs rs"
  using naturals_sum [OF naturals_values, of "cost_cells rs"]
  by (simp add: whole_costs_def exact_costs_def)








section \<open>The remediation merge\<close>

lemma cell_at_update: "cell_at (AList.update k v r) c = (if c = k then v else cell_at r c)"
  by (simp add: cell_at_def update_conv')


lemma map_zip_map: "map (\<lambda>(v, r). g v r) (zip (map f xs) xs) = map (\<lambda>r. g (f r) r) xs"
  by (induction xs) auto

lemma map2_maps: "map (\<lambda>(v, r). g v r) (zip (map f xs) (map k xs)) = map (\<lambda>x. g (f x) (k x)) xs"
  by (induction xs) auto

lemma count_selected:
  "length (filter (\<lambda>(c, v). v \<noteq> NaN) (map (\<lambda>c. (c, cell_at r c)) cs)) =
   length (filter (\<lambda>c. cell_at r c \<noteq> NaN) cs)"
  by (induction cs) auto

text \<open>The percentage of a score is computed without rounding error.\<close>

lemma percent_exact:
  assumes "n \<le> 5"
  shows "rnd (rnd (rnd (of_nat n) / rnd (of_nat 5)) * 100) = of_nat n / 5 * 100"
proof -
  have c: "rnd (rnd (rnd 0 / rnd 5) * 100) = 0 / 5 * 100"
    "rnd (rnd (rnd 1 / rnd 5) * 100) = 1 / 5 * 100"
    "rnd (rnd (rnd 2 / rnd 5) * 100) = 2 / 5 * 100"
    "rnd (rnd (rnd 3 / rnd 5) * 100) = 3 / 5 * 100"
    "rnd (rnd (rnd 4 / rnd 5) * 100) = 4 / 5 * 100"
    "rnd (rnd (rnd 5 / rnd 5) * 100) = 5 / 5 * 100"
    by code_simp+
  from assms consider "n = 0" | "n = 1" | "n = 2" | "n = 3" | "n = 4" | "n = 5"
    by linarith
  then show ?thesis
    by cases (simp_all only: c of_nat_0 of_nat_1 of_nat_numeral)
qed

lemma present_le: "present r \<le> 5"
proof -
  have "present r \<le> length tag_fields"
    unfolding present_def by (rule length_filter_le)
  then show ?thesis by (simp add: tag_fields_def)
qed

lemma percent_of_present:
  "percent_of (length tag_fields) (Num (of_nat (present r))) = Num (of_nat (present r) / 5 * 100)"
proof -
  have n5: "length tag_fields = 5" by (simp add: tag_fields_def)
  show ?thesis
    unfolding percent_of_def n5 cell.case by (simp only: percent_exact [OF present_le])
qed

lemma with_completeness_Inr:
  assumes "set tag_fields \<subseteq> set (columns df)"
  shows "with_completeness df =
     Inr \<lparr>columns = score_columns (columns df), rows = map score_row (rows df)\<rparr>"
proof -
  have sel: "select_columns df tag_fields =
      Inr \<lparr>columns = tag_fields, rows = map (\<lambda>r. map (\<lambda>c. (c, cell_at r c)) tag_fields) (rows df)\<rparr>"
    using assms by (auto simp: select_columns_def Let_def filter_empty_conv)
  have ns: "notna_sum \<lparr>columns = tag_fields,
       rows = map (\<lambda>r. map (\<lambda>c. (c, cell_at r c)) tag_fields) (rows df)\<rparr> =
     map (\<lambda>r. Num (of_nat (present r))) (rows df)"
    by (simp add: notna_sum_def comp_def count_selected present_def)
  show ?thesis
    by (simp add: with_completeness_def sel and_then_def ns Let_def setitem_def getitem_def
        map_zip_map map2_maps comp_def cell_at_update percent_of_present score_row_def
        score_columns_def)
qed

lemma with_completeness_Inl:
  assumes "\<not> set tag_fields \<subseteq> set (columns df)"
  shows "with_completeness df = Inl (KeyError (filter (\<lambda>c. c \<notin> set (columns df)) tag_fields))"
  using assms by (auto simp: with_completeness_def select_columns_def Let_def and_then_def filter_empty_conv)

lemma present_score_row: "present (score_row r) = present r"
  by (simp add: present_def score_row_def cell_at_update tag_fields_def)

lemma score_of_score_row: "cell_at (score_row r) ''TagCompletenessScore'' = Num (of_nat (present r))"
  by (simp add: score_row_def cell_at_update)

lemma edit_cells_Nil: "edit_cells ecols e [] r = r"
  by (simp add: edit_cells_def)

lemma edit_cells_Cons:
  "edit_cells ecols e (c # cols) r =
   edit_cells ecols e cols (if c \<in> set ecols then AList.update c (cell_at e c) r else r)"
  by (simp add: edit_cells_def)

lemma fold_heap:
  "a < length h \<Longrightarrow>
   fold (\<lambda>col h'. if P col then h'[a := g col (h' ! a)] else h') cols h =
   h[a := fold (\<lambda>col d. if P col then g col d else d) cols (h ! a)]"
  by (induction cols arbitrary: h) auto

lemma zip_map_twice:
  "map (\<lambda>(m, r). F m r) (zip msk (map (\<lambda>(m, r). G m r) (zip msk rs))) =
   map (\<lambda>(m, r). F m (G m r)) (zip msk rs)"
proof (induction msk arbitrary: rs)
  case Nil then show ?case by simp
next
  case (Cons m msk) then show ?case by (cases rs) auto
qed

lemma zip_map_id: "length msk = length rs \<Longrightarrow> map (\<lambda>(m, r). r) (zip msk rs) = rs"
  by (induction msk rs rule: list_induct2) auto

lemma loc_set_present:
  "c \<in> set (columns d) \<Longrightarrow>
   loc_set d msk c v = d\<lparr>rows := map (\<lambda>(m, r). if m then AList.update c v r else r) (zip msk (rows d))\<rparr>"
  by (simp add: loc_set_def)

lemma fold_loc_set:
  assumes "\<forall>c \<in> set cols. c \<in> set ecols \<longrightarrow> c \<in> set (columns d)"
    and "length msk = length (rows d)"
  shows "fold (\<lambda>col d'. if col \<in> set ecols then loc_set d' msk col (cell_at e col) else d') cols d =
     d\<lparr>rows := map (\<lambda>(m, r). if m then edit_cells ecols e cols r else r) (zip msk (rows d))\<rparr>"
  using assms
proof (induction cols arbitrary: d)
  case Nil
  then show ?case by (simp add: edit_cells_Nil zip_map_id cong: if_cong)
next
  case (Cons c cols)
  show ?case
  proof (cases "c \<in> set ecols")
    case False
    with Cons show ?thesis by (simp add: edit_cells_Cons cong: if_cong)
  next
    case True
    let ?d1 = "loc_set d msk c (cell_at e c)"
    have d1: "?d1 = d\<lparr>rows := map (\<lambda>(m, r). if m then AList.update c (cell_at e c) r else r) (zip msk (rows d))\<rparr>"
      using Cons.prems True by (simp add: loc_set_present)
    have "\<forall>c' \<in> set cols. c' \<in> set ecols \<longrightarrow> c' \<in> set (columns ?d1)"
      using Cons.prems by (simp add: d1)
    moreover have "length msk = length (rows ?d1)"
      using Cons.prems by (simp add: d1)
    ultimately have "fold (\<lambda>col d'. if col \<in> set ecols then loc_set d' msk col (cell_at e col) else d') cols ?d1 =
       ?d1\<lparr>rows := map (\<lambda>(m, r). if m then edit_cells ecols e cols r else r) (zip msk (rows ?d1))\<rparr>"
      by (rule Cons.IH)
    then show ?thesis
      using True
      by (simp add: d1 zip_map_twice edit_cells_Cons cong: if_cong)
  qed
qed

lemma covers_rid: "covers ecols d \<Longrightarrow> ''ResourceID'' \<in> set (columns d)"
  by (simp add: covers_def edit_columns_def)

lemma apply_edit_eq:
  assumes a: "a < length h" and cov: "covers ecols (h ! a)"
  shows "apply_edit ecols a e h =
     Inr (h[a := (h ! a)\<lparr>rows := map (edit_row ecols e) (rows (h ! a))\<rparr>])"
proof -
  let ?d = "h ! a"
  let ?msk = "eq_scalar (map (\<lambda>r. cell_at r ''ResourceID'') (rows ?d)) (cell_at e ''ResourceID'')"
  have len: "length ?msk = length (rows ?d)"
    by (simp add: eq_scalar_def)
  have cols: "\<forall>c \<in> set edit_columns. c \<in> set ecols \<longrightarrow> c \<in> set (columns ?d)"
    using cov by (simp add: covers_def list_all_iff)
  have inner: "fold (\<lambda>col d'. if col \<in> set ecols then loc_set d' ?msk col (cell_at e col) else d')
       edit_columns ?d = ?d\<lparr>rows := map (edit_row ecols e) (rows ?d)\<rparr>"
    unfolding fold_loc_set [OF cols len]
    by (simp add: eq_scalar_def map_zip_map edit_row_def [abs_def] comp_def
        map_zip_map [of "\<lambda>m r. if m then edit_cells ecols e edit_columns r else r"
                        "\<lambda>r. eq_cell (cell_at r ''ResourceID'') (cell_at e ''ResourceID'')"])
  show ?thesis
    using cov covers_rid [OF cov]
    by (simp add: apply_edit_def getitem_def series_get_def and_then_def Let_def
        fold_heap [OF a, of "\<lambda>col. col \<in> set ecols"
          "\<lambda>col d. loc_set d ?msk col (cell_at e col)"] inner covers_def)
qed

lemma apply_edits_eq:
  assumes "a < length h" and "covers ecols (h ! a)"
  shows "apply_edits ecols a es h =
     Inr (h[a := (h ! a)\<lparr>rows := map (fold (edit_row ecols) es) (rows (h ! a))\<rparr>])"
  using assms
proof (induction es arbitrary: h)
  case Nil
  then show ?case by simp
next
  case (Cons e es)
  let ?h1 = "h[a := (h ! a)\<lparr>rows := map (edit_row ecols e) (rows (h ! a))\<rparr>]"
  have a1: "a < length ?h1" using Cons.prems by simp
  have c1: "covers ecols (?h1 ! a)" using Cons.prems by (simp add: covers_def)
  show ?case
    using Cons.IH [OF a1 c1] Cons.prems
    by (simp add: apply_edit_eq and_then_def comp_def)
qed

lemma remediate_eq:
  assumes df: "df < length h" and ed: "edited_df < length h"
    and cov: "covers (columns (h ! edited_df)) (h ! df)"
    and tags: "set tag_fields \<subseteq> set (columns (h ! df))"
  shows "remediate df edited_df h =
     Inr (length h, h @ [\<lparr>columns = score_columns (columns (h ! df)),
        rows = map (\<lambda>r. score_row (fold (edit_row (columns (h ! edited_df))) (rows (h ! edited_df)) r))
                 (rows (h ! df))\<rparr>])"
proof -
  let ?h1 = "h @ [h ! df]"
  let ?a = "length h"
  have a: "?a < length ?h1" by simp
  have e1: "?h1 ! edited_df = h ! edited_df" using ed by (simp add: nth_append)
  have c1: "covers (columns (h ! edited_df)) (?h1 ! ?a)" using cov by simp
  have loop: "apply_edits (columns (h ! edited_df)) ?a (rows (h ! edited_df)) ?h1 =
     Inr (?h1[?a := (h ! df)\<lparr>rows := map (fold (edit_row (columns (h ! edited_df))) (rows (h ! edited_df)))
        (rows (h ! df))\<rparr>])"
    using apply_edits_eq [OF a c1, of "rows (h ! edited_df)"] by simp
  show ?thesis
    using tags
    by (simp add: remediate_def copy_def e1 loop and_then_def with_completeness_Inr comp_def)
qed

lemma merged_eq:
  assumes "covers (columns edits) base" and "set tag_fields \<subseteq> set (columns base)"
  shows "merged base edits =
     Inr \<lparr>columns = score_columns (columns base),
          rows = map (\<lambda>r. score_row (fold (edit_row (columns edits)) (rows edits) r)) (rows base)\<rparr>"
  using remediate_eq [of 0 "[base, edits]" 1] assms
  by (simp add: merged_def and_then_def)

text \<open>The loop touches the frame of \<open>remediated_df\<close> only.\<close>

lemma apply_edit_frame:
  assumes a: "a < length h" and run: "apply_edit ecols a e h = Inr h'"
  shows "length h' = length h \<and> (\<forall>b. b \<noteq> a \<longrightarrow> h' ! b = h ! b)"
proof -
  from run obtain msk where
    "h' = fold (\<lambda>col h'. if col \<in> set ecols
                  then h'[a := loc_set (h' ! a) msk col (cell_at e col)] else h') edit_columns h"
    by (auto simp: apply_edit_def and_then_def Let_def split: sum.splits)
  then have "h' = h[a := fold (\<lambda>col d. if col \<in> set ecols
                  then loc_set d msk col (cell_at e col) else d) edit_columns (h ! a)]"
    using fold_heap [OF a, of "\<lambda>col. col \<in> set ecols" "\<lambda>col d. loc_set d msk col (cell_at e col)"]
    by simp
  then show ?thesis by simp
qed

lemma apply_edits_frame:
  assumes "a < length h" and "apply_edits ecols a es h = Inr h'"
  shows "length h' = length h \<and> (\<forall>b. b \<noteq> a \<longrightarrow> h' ! b = h ! b)"
  using assms
proof (induction es arbitrary: h)
  case Nil
  then show ?case by simp
next
  case (Cons e es)
  from Cons.prems(2) obtain h1 where h1: "apply_edit ecols a e h = Inr h1"
    and rest: "apply_edits ecols a es h1 = Inr h'"
    by (auto simp: and_then_def split: sum.splits)
  note step = apply_edit_frame [OF Cons.prems(1) h1]
  then have "a < length h1" using Cons.prems(1) by simp
  from Cons.IH [OF this rest] step show ?case by simp
qed

lemma remediate_cases:
  assumes "remediate df edited_df h = Inr (r, h')"
  obtains h2 scored where
    "apply_edits (columns ((h @ [h ! df]) ! edited_df)) (length h)
       (rows ((h @ [h ! df]) ! edited_df)) (h @ [h ! df]) = Inr h2"
    and "with_completeness (h2 ! length h) = Inr scored"
    and "r = length h" and "h' = h2[length h := scored]"
    and "length h2 = Suc (length h)" and "\<forall>b. b \<noteq> length h \<longrightarrow> h2 ! b = (h @ [h ! df]) ! b"
proof -
  let ?run = "apply_edits (columns ((h @ [h ! df]) ! edited_df)) (length h)
       (rows ((h @ [h ! df]) ! edited_df)) (h @ [h ! df])"
  have unfolded: "and_then ?run (\<lambda>h2. and_then (with_completeness (h2 ! length h))
      (\<lambda>scored. Inr (length h, h2[length h := scored]))) = Inr (r, h')"
    using assms by (simp add: remediate_def copy_def)
  then obtain h2 where loop: "?run = Inr h2"
    by (cases ?run) (simp_all add: and_then_def)
  with unfolded obtain scored where sc: "with_completeness (h2 ! length h) = Inr scored"
    by (cases "with_completeness (h2 ! length h)") (simp_all add: and_then_def)
  have res: "r = length h" "h' = h2[length h := scored]"
    using unfolded by (auto simp: loop sc and_then_def)
  have "length h < length (h @ [h ! df])" by simp
  from apply_edits_frame [OF this loop]
  have len: "length h2 = Suc (length h)"
    and same: "\<forall>b. b \<noteq> length h \<longrightarrow> h2 ! b = (h @ [h ! df]) ! b"
    by simp_all
  show thesis by (rule that [OF loop sc res len same])
qed

lemma remediate_frame:
  assumes "remediate df edited_df h = Inr (r, h')"
  shows "r = length h \<and> take (length h) h' = h \<and> length h' = Suc (length h)"
proof -
  from assms obtain h2 scored where res: "r = length h" "h' = h2[length h := scored]"
    and len: "length h2 = Suc (length h)"
    and same: "\<forall>b. b \<noteq> length h \<longrightarrow> h2 ! b = (h @ [h ! df]) ! b"
    by (rule remediate_cases)
  have "take (length h) h' = h"
  proof (rule nth_equalityI)
    show "length (take (length h) h') = length h" using len res by simp
  next
    fix i assume "i < length (take (length h) h')"
    then have i: "i < length h" by simp
    then show "take (length h) h' ! i = h ! i"
      using same res by (simp add: nth_append)
  qed
  then show ?thesis using res len by simp
qed

lemma remediate_scored:
  assumes "remediate df edited_df h = Inr (r, h')"
  shows "\<exists>d0. with_completeness d0 = Inr (h' ! r)"
proof -
  from assms obtain h2 scored where "with_completeness (h2 ! length h) = Inr scored"
    and "r = length h" "h' = h2[length h := scored]" and "length h2 = Suc (length h)"
    by (rule remediate_cases)
  then show ?thesis by auto
qed

lemma with_completeness_rows:
  assumes "with_completeness d0 = Inr d"
  shows "set tag_fields \<subseteq> set (columns d0) \<and> rows d = map score_row (rows d0)
     \<and> columns d = score_columns (columns d0)"
proof (cases "set tag_fields \<subseteq> set (columns d0)")
  case True
  with assms show ?thesis by (auto simp: with_completeness_Inr)
next
  case False
  with assms show ?thesis by (simp add: with_completeness_Inl)
qed

lemma merged_scored:
  assumes "merged base edits = Inr d"
  shows "\<exists>d0. with_completeness d0 = Inr d"
proof -
  from assms obtain a h' where "remediate 0 1 [base, edits] = Inr (a, h')" and "d = h' ! a"
    by (auto simp: merged_def and_then_def split: sum.splits)
  then show ?thesis using remediate_scored by blast
qed

lemma cell_at_edit_cells:
  "cell_at (edit_cells ecols e cols r) c =
     (if c \<in> set cols \<and> c \<in> set ecols then cell_at e c else cell_at r c)"
  by (induction cols arbitrary: r) (auto simp: edit_cells_Nil edit_cells_Cons cell_at_update)

lemma eq_cell_same: "eq_cell a b \<Longrightarrow> a = b"
  by (cases a; cases b) auto

lemma edit_row_id: "cell_at (edit_row ecols e r) ''ResourceID'' = cell_at r ''ResourceID''"
  by (auto simp: edit_row_def cell_at_edit_cells dest: eq_cell_same)

lemma fold_edit_row_id:
  "cell_at (fold (edit_row ecols) es r) ''ResourceID'' = cell_at r ''ResourceID''"
  by (induction es arbitrary: r) (simp_all add: edit_row_id)

lemma fold_edit_row_unmatched:
  "\<forall>e \<in> set es. \<not> eq_cell (cell_at r ''ResourceID'') (cell_at e ''ResourceID'') \<Longrightarrow>
   fold (edit_row ecols) es r = r"
  by (induction es) (simp_all add: edit_row_def)

lemma fold_edit_row_last:
  assumes m: "eq_cell (cell_at r ''ResourceID'') (cell_at e ''ResourceID'')"
    and later: "\<forall>e' \<in> set after. \<not> eq_cell (cell_at e ''ResourceID'') (cell_at e' ''ResourceID'')"
    and c: "c \<in> set edit_columns" "c \<in> set ecols"
  shows "cell_at (fold (edit_row ecols) (before @ e # after) r) c = cell_at e c"
proof -
  let ?r1 = "fold (edit_row ecols) before r"
  have id1: "cell_at ?r1 ''ResourceID'' = cell_at r ''ResourceID''"
    by (rule fold_edit_row_id)
  have same: "cell_at r ''ResourceID'' = cell_at e ''ResourceID''"
    using m by (rule eq_cell_same)
  have hit: "cell_at (edit_row ecols e ?r1) c = cell_at e c"
    using m c by (simp add: edit_row_def id1 cell_at_edit_cells)
  have "\<forall>e' \<in> set after. \<not> eq_cell (cell_at (edit_row ecols e ?r1) ''ResourceID'')
      (cell_at e' ''ResourceID'')"
    using later by (simp add: edit_row_id id1 same)
  then have "fold (edit_row ecols) after (edit_row ecols e ?r1) = edit_row ecols e ?r1"
    by (rule fold_edit_row_unmatched)
  then show ?thesis by (simp add: hit)
qed

lemma cell_at_score_row:
  "c \<noteq> ''TagCompletenessScore'' \<Longrightarrow> c \<noteq> ''TagCompletenessPercentage'' \<Longrightarrow>
   cell_at (score_row r) c = cell_at r c"
  by (simp add: score_row_def cell_at_update)

text \<open>
  C1. The claim: the merge leaves \<open>ResourceID\<close>, \<open>Service\<close>, \<open>Region\<close> and
  \<open>MonthlyCostUSD\<close> of every row as they are in the base dataset, and the page itself
  marks these four columns as disabled in its data editor. The loop assigns all
  ten edit columns, the four read-only ones included, to every row with the edited row's
  \<open>ResourceID\<close>. For \<open>twin_csv\<close>, whose tag columns all hold texts, loaded and passed
  through the page with the data editor returning its input untouched, the first
  resource ends with the service, region and cost of the second.
\<close>

theorem merge_overwrites_read_only_columns:
  "and_then (load_data pandas_default_na twin_csv) (\<lambda>df.
     and_then (getitem df ''Service'') (\<lambda>service.
     and_then (getitem df ''Region'') (\<lambda>region.
     and_then (getitem df ''MonthlyCostUSD'') (\<lambda>cost. Inr [service, region, cost]))))
   = Inr [[Str ''EC2'', Str ''S3''], [Str ''us-east-1'', Str ''us-west-2''], [Num 10, Num 20]]
   \<and>
   and_then (load_data pandas_default_na twin_csv) (\<lambda>df.
     and_then (untagged_view df) (\<lambda>edited_df.
     and_then (merged df edited_df) (\<lambda>remediated_df.
     and_then (getitem remediated_df ''Service'') (\<lambda>service.
     and_then (getitem remediated_df ''Region'') (\<lambda>region.
     and_then (getitem remediated_df ''MonthlyCostUSD'') (\<lambda>cost. Inr [service, region, cost]))))))
   = Inr [[Str ''S3'', Str ''S3''], [Str ''us-west-2'', Str ''us-west-2''], [Num 20, Num 20]]"
  by code_simp

text \<open>
  C2, as claimed: an edited row whose \<open>Environment\<close> is outside Prod, Dev, Test or whose
  \<open>Tagged\<close> is outside Yes, No is rejected before the merge. It is not: the merge of
  \<open>invalid_edit\<close> into \<open>inventory\<close>, whose tag columns hold texts, returns a frame, and
  the row of \<open>R1\<close> holds the environment \<open>Staging\<close> and the tagged flag \<open>Maybe\<close>.
\<close>

theorem merge_stores_invalid_values:
  "and_then (merged inventory invalid_edit) (\<lambda>d. getitem d ''Environment'')
     = Inr [Str ''Staging'', Str ''Prod'', Str ''Test'']
   \<and> and_then (merged inventory invalid_edit) (\<lambda>d. getitem d ''Tagged'')
     = Inr [Str ''Maybe'', Str ''Yes'', Str ''No'']"
  by code_simp

text \<open>
  C2, amended. The merge validates nothing. Whenever it returns a frame, for a base
  frame that has the tag fields and the edit columns of the edited frame, the frame has
  as many rows as the base; and for an edited row \<open>e\<close> that no later edited row repeats
  the \<open>ResourceID\<close> of, every base row with the \<open>ResourceID\<close> of \<open>e\<close> ends with the
  \<open>Environment\<close> and the \<open>Tagged\<close> cell of \<open>e\<close>, whatever they are.
\<close>

theorem merge_stores_edit_unvalidated:
  assumes "merged base edits = Inr d"
    and "covers (columns edits) base" and "set tag_fields \<subseteq> set (columns base)"
    and "''Environment'' \<in> set (columns edits)" and "''Tagged'' \<in> set (columns edits)"
    and "rows edits = before @ e # after"
    and "\<forall>e' \<in> set after. \<not> eq_cell (cell_at e ''ResourceID'') (cell_at e' ''ResourceID'')"
  shows "length (rows d) = length (rows base) \<and>
    (\<forall>i < length (rows base).
       eq_cell (cell_at (rows base ! i) ''ResourceID'') (cell_at e ''ResourceID'') \<longrightarrow>
       cell_at (rows d ! i) ''Environment'' = cell_at e ''Environment'' \<and>
       cell_at (rows d ! i) ''Tagged'' = cell_at e ''Tagged'')"
proof -
  let ?d = "\<lparr>columns = score_columns (columns base),
     rows = map (\<lambda>r. score_row (fold (edit_row (columns edits)) (rows edits) r)) (rows base)\<rparr>"
  have "merged base edits = Inr ?d"
    using assms(2,3) by (rule merged_eq)
  with assms(1) have d: "d = ?d" by simp
  have "cell_at (rows ?d ! i) c = cell_at e c"
    if i: "i < length (rows base)"
      and m: "eq_cell (cell_at (rows base ! i) ''ResourceID'') (cell_at e ''ResourceID'')"
      and c: "c \<in> set edit_columns" "c \<in> set (columns edits)" for i c
  proof -
    have "c \<noteq> ''TagCompletenessScore''" "c \<noteq> ''TagCompletenessPercentage''"
      using c(1) by (auto simp: edit_columns_def)
    then show ?thesis
      using i fold_edit_row_last [OF m assms(7) c, of before]
      by (simp add: cell_at_score_row assms(6))
  qed
  then have "\<forall>i < length (rows base).
       eq_cell (cell_at (rows base ! i) ''ResourceID'') (cell_at e ''ResourceID'') \<longrightarrow>
       cell_at (rows ?d ! i) ''Environment'' = cell_at e ''Environment'' \<and>
       cell_at (rows ?d ! i) ''Tagged'' = cell_at e ''Tagged''"
    using assms(4,5) by (simp add: edit_columns_def)
  then show ?thesis unfolding d by simp
qed

theorem merge_stores_edit_unvalidated_witness:
  "\<exists>d. merged inventory invalid_edit = Inr d \<and> length (rows d) = 3
     \<and> cell_at (rows d ! 0) ''Environment'' = Str ''Staging''
     \<and> cell_at (rows d ! 0) ''Tagged'' = Str ''Maybe''"
proof -
  let ?e = "zip edit_columns [Str ''R1'', Str ''EC2'', Str ''us-west-2'', Str ''Eng'', NaN,
        Str ''Staging'', NaN, NaN, Num 100, Str ''Maybe'']"
  let ?e3 = "zip edit_columns [Str ''R3'', Str ''RDS'', Str ''us-east-1'', Str ''Ops'', Str ''Z'',
        Str ''Test'', Str ''Joe'', Str ''CC3'', Num 75, Str ''No'']"
  have 1: "covers (columns invalid_edit) inventory" by code_simp
  have 2: "set tag_fields \<subseteq> set (columns inventory)" by code_simp
  have 3: "''Environment'' \<in> set (columns invalid_edit)" by code_simp
  have 4: "''Tagged'' \<in> set (columns invalid_edit)" by code_simp
  have 5: "rows invalid_edit = [] @ ?e # [?e3]" by (simp add: invalid_edit_def)
  have "\<not> eq_cell (cell_at ?e ''ResourceID'') (cell_at ?e3 ''ResourceID'')" by code_simp
  then have 6: "\<forall>e' \<in> set [?e3]. \<not> eq_cell (cell_at ?e ''ResourceID'') (cell_at e' ''ResourceID'')"
    by simp
  obtain d where run: "merged inventory invalid_edit = Inr d"
    using merged_eq [OF 1 2] by blast
  have len: "length (rows inventory) = 3" by (simp add: inventory_def)
  have m: "eq_cell (cell_at (rows inventory ! 0) ''ResourceID'') (cell_at ?e ''ResourceID'')"
    by code_simp
  have env: "cell_at ?e ''Environment'' = Str ''Staging''" by code_simp
  have tag: "cell_at ?e ''Tagged'' = Str ''Maybe''" by code_simp
  from merge_stores_edit_unvalidated [OF run 1 2 3 4 5 6] m run show ?thesis
    unfolding len env tag by auto
qed

text \<open>
  C3. Whenever the merge returns a frame, the \<open>TagCompletenessScore\<close> of every row of
  it, edited or not, is the number of non-absent cells among the row's Department,
  Project, Environment, Owner and CostCenter. With the assignment of \<open>loc_set\<close> it does
  return one, with the rows of the base, when the base frame has the tag fields and the
  edit columns of the edited frame.
\<close>

theorem merge_recomputes_scores:
  "(\<forall>d. merged base edits = Inr d \<longrightarrow>
      (\<forall>r \<in> set (rows d). cell_at r ''TagCompletenessScore'' = Num (of_nat (present r))))
   \<and> (covers (columns edits) base \<and> set tag_fields \<subseteq> set (columns base) \<longrightarrow>
      (\<exists>d. merged base edits = Inr d \<and> length (rows d) = length (rows base)))"
proof (intro conjI allI impI)
  fix d
  assume "merged base edits = Inr d"
  then obtain d0 where "with_completeness d0 = Inr d"
    using merged_scored by blast
  then have "rows d = map score_row (rows d0)"
    by (simp add: with_completeness_rows)
  then show "\<forall>r \<in> set (rows d). cell_at r ''TagCompletenessScore'' = Num (of_nat (present r))"
    by (auto simp: score_of_score_row present_score_row)
next
  assume "covers (columns edits) base \<and> set tag_fields \<subseteq> set (columns base)"
  then show "\<exists>d. merged base edits = Inr d \<and> length (rows d) = length (rows base)"
    by (simp add: merged_eq)
qed

theorem merge_recomputes_scores_witness:
  "merged inventory inventory_edit = Inr inventory_remediated
   \<and> map (\<lambda>r. cell_at r ''TagCompletenessScore'') (rows inventory_remediated) = [Num 5, Num 5, Num 5]
   \<and> map present (rows inventory_remediated) = [5, 5, 5]
   \<and> map present (rows inventory) = [2, 5, 5]"
proof -
  have run: "merged inventory inventory_edit = Inr inventory_remediated" by code_simp
  have counts: "map present (rows inventory_remediated) = [5, 5, 5]" by code_simp
  have before: "map present (rows inventory) = [2, 5, 5]" by code_simp
  have "\<forall>r \<in> set (rows inventory_remediated). cell_at r ''TagCompletenessScore'' = Num (of_nat (present r))"
    using merge_recomputes_scores [of inventory inventory_edit] run by blast
  then have "map (\<lambda>r. cell_at r ''TagCompletenessScore'') (rows inventory_remediated) =
      map (\<lambda>r. Num (of_nat (present r))) (rows inventory_remediated)"
    by simp
  also have "\<dots> = map (\<lambda>n. Num (of_nat n)) (map present (rows inventory_remediated))"
    by (simp add: comp_def)
  finally show ?thesis using run counts before by simp
qed

text \<open>
  C9. The merge works on a copy: it returns a frame allocated by the call, and every
  frame that was on the heap before the call, the base frame among them, is the same
  after it.
\<close>

theorem remediate_leaves_base_unchanged:
  assumes "df < length h" and "remediate df edited_df h = Inr (remediated_df, h')"
  shows "h' ! df = h ! df \<and> take (length h) h' = h \<and> remediated_df = length h"
proof -
  from remediate_frame [OF assms(2)]
  have r: "remediated_df = length h" and t: "take (length h) h' = h"
    by simp_all
  have "h' ! df = take (length h) h' ! df"
    using assms(1) by simp
  with r t show ?thesis by simp
qed

theorem remediate_leaves_base_unchanged_witness:
  "remediate 0 1 [inventory, inventory_edit]
     = Inr (2, [inventory, inventory_edit, inventory_remediated])
   \<and> [inventory, inventory_edit, inventory_remediated] ! 0 = [inventory, inventory_edit] ! 0
   \<and> inventory_remediated \<noteq> inventory"
proof -
  have run: "remediate 0 1 [inventory, inventory_edit]
      = Inr (2, [inventory, inventory_edit, inventory_remediated])"
    by code_simp
  have "(0::nat) < length [inventory, inventory_edit]" by simp
  from remediate_leaves_base_unchanged [OF this run]
  have "[inventory, inventory_edit, inventory_remediated] ! 0 = [inventory, inventory_edit] ! 0"
    by blast
  moreover have "inventory_remediated \<noteq> inventory" by code_simp
  ultimately show ?thesis using run by simp
qed

section \<open>The loader\<close>

lemma set_keep_first: "set (keep_first xs) = set xs"
  by (induction xs rule: keep_first.induct) auto



lemma read_csv_empty: "header raw = [] \<Longrightarrow> read_csv dflt extra raw = Inl EmptyDataError"
  by (simp add: read_csv_def Let_def)

lemma fits_records: "fits raw \<Longrightarrow> \<forall>fs \<in> set (records raw). length fs \<le> length (header raw)"
  by (simp add: fits_def records_def list_all_iff)

lemma read_csv_rows:
  assumes "header raw \<noteq> []" and "fits raw"
  shows "read_csv dflt na_values raw =
     Inr \<lparr>columns = header raw, rows = map (read_row dflt raw) (records raw)\<rparr>"
proof -
  let ?n = "length (header raw)"
  have le: "\<forall>fs \<in> set (records raw). length fs \<le> ?n"
    using assms(2) by (rule fits_records)
  have w: "(case records raw of [] \<Rightarrow> ?n | first # later \<Rightarrow> max ?n (length first)) = ?n"
    using le by (cases "records raw") (simp_all add: max_def)
  have ok: "\<not> list_ex (\<lambda>fs. ?n < length fs) (records raw)"
    using le by (auto simp: list_ex_iff)
  show ?thesis
    unfolding read_csv_def Let_def records_def [symmetric] w
    using assms(1) ok by (simp add: read_row_def)
qed

lemma load_data_eq:
  assumes "header raw \<noteq> []" and "fits raw"
  shows "load_data dflt raw =
     (if set tag_fields \<subseteq> set (header raw) then Inr (loaded dflt raw)
      else Inl (KeyError (filter (\<lambda>c. c \<notin> set (header raw)) tag_fields)))"
  by (simp add: load_data_def Let_def read_csv_rows [OF assms] and_then_def drop_duplicates_def
      with_completeness_Inr with_completeness_Inl loaded_def)

lemma tag_fields_header: "set tag_fields \<subseteq> set (header raw) \<Longrightarrow> header raw \<noteq> []"
  by (auto simp: tag_fields_def)

lemma cell_at_zip:
  assumes "distinct cs" and "length vs = length cs" and "j < length cs"
  shows "cell_at (zip cs vs) (cs ! j) = vs ! j"
  using assms map_of_zip_nth [of cs vs j] by (simp add: cell_at_def)

lemma read_field_Text:
  "read_field (na_values @ dflt) (Text s) =
     (if s = '''' \<or> s = '' '' \<or> s \<in> set dflt then NaN else Str s)"
  by (auto simp: read_field_def na_values_def)

text \<open>
  C6, as claimed: the loader reads every whitespace-only cell as absent, so that it
  never counts in the completeness score. It does not: in \<open>blank_cells_csv\<close> the cells
  of two spaces, of a tab and of three spaces are read as texts, only the empty cell and
  the cell of one space are absent, and the score of the row is 3.
\<close>

theorem loader_keeps_whitespace_cells:
  "and_then (load_data pandas_default_na blank_cells_csv) (\<lambda>df.
     and_then (select_columns df tag_fields) (\<lambda>sub. Inr (rows sub)))
   = Inr [[(''Department'', Str ''  ''), (''Project'', NaN), (''Environment'', NaN),
           (''Owner'', Str [CHR 0x09]), (''CostCenter'', Str ''   '')]]
   \<and> and_then (load_data pandas_default_na blank_cells_csv) (\<lambda>df.
     getitem df ''TagCompletenessScore'') = Inr [Num 3]"
  by code_simp

text \<open>
  C6, amended. The absent cells are those whose text is empty, one space, or one of the
  default markers of pandas; every other text, whitespace-only or not, is a value. In a
  document with distinct column names and the five tag fields in which no record is
  longer than the header, every record with one field per column is a row of the loaded
  frame, read cell by cell in that way, and the score of the row is the number of its
  tag fields that are not absent, so the empty cell and the cell of one space never
  count.
\<close>

theorem loader_absent_cells:
  assumes "distinct (header raw)" and "set tag_fields \<subseteq> set (header raw)"
    and "fits raw"
    and "fs \<in> set (body raw)" and "length fs = length (header raw)"
  shows "\<exists>df r. load_data dflt raw = Inr df \<and> r \<in> set (rows df)
     \<and> (\<forall>j < length fs.
          header raw ! j \<notin> {''TagCompletenessScore'', ''TagCompletenessPercentage''} \<longrightarrow>
          cell_at r (header raw ! j) =
            (case fs ! j of
               Text s \<Rightarrow> if s = '''' \<or> s = '' '' \<or> s \<in> set dflt then NaN else Str s
             | Number q \<Rightarrow> Num q))
     \<and> cell_at r ''TagCompletenessScore'' = Num (of_nat (present r))"
proof -
  let ?r = "score_row (read_row dflt raw fs)"
  have h: "header raw \<noteq> []"
    using assms(2) by (rule tag_fields_header)
  have run: "load_data dflt raw = Inr (loaded dflt raw)"
    using assms(2) by (simp add: load_data_eq [OF h assms(3)])
  have "fs \<noteq> []"
    using h assms(5) by auto
  then have "fs \<in> set (records raw)"
    using assms(4) by (simp add: records_def)
  then have mem: "?r \<in> set (rows (loaded dflt raw))"
    by (simp add: loaded_def set_keep_first)
  have cells: "cell_at ?r (header raw ! j) =
      (case fs ! j of
         Text s \<Rightarrow> if s = '''' \<or> s = '' '' \<or> s \<in> set dflt then NaN else Str s
       | Number q \<Rightarrow> Num q)"
    if j: "j < length fs"
      and d: "header raw ! j \<notin> {''TagCompletenessScore'', ''TagCompletenessPercentage''}" for j
  proof -
    have "cell_at ?r (header raw ! j) = cell_at (read_row dflt raw fs) (header raw ! j)"
      using d by (simp add: cell_at_score_row)
    also have "\<dots> = map (read_field (na_values @ dflt)) fs ! j"
    proof -
      have "read_row dflt raw fs = zip (header raw) (map (read_field (na_values @ dflt)) fs)"
        using assms(5) by (simp add: read_row_def)
      then show ?thesis
        using assms(1,5) j by (simp add: cell_at_zip)
    qed
    also have "\<dots> = read_field (na_values @ dflt) (fs ! j)"
      using j by simp
    also have "\<dots> = (case fs ! j of
         Text s \<Rightarrow> if s = '''' \<or> s = '' '' \<or> s \<in> set dflt then NaN else Str s
       | Number q \<Rightarrow> Num q)"
      by (cases "fs ! j") (simp_all add: read_field_Text, simp add: read_field_def)
    finally show ?thesis .
  qed
  have score: "cell_at ?r ''TagCompletenessScore'' = Num (of_nat (present ?r))"
    by (simp add: score_of_score_row present_score_row)
  from run mem cells score show ?thesis by blast
qed

theorem loader_absent_cells_witness:
  "\<exists>df r. load_data pandas_default_na blank_cells_csv = Inr df \<and> r \<in> set (rows df)
     \<and> cell_at r ''Department'' = Str ''  '' \<and> cell_at r ''Project'' = NaN
     \<and> cell_at r ''Environment'' = NaN"
proof -
  let ?fs = "[Text ''R1'', Text ''EC2'', Text ''us-west-2'', Number 100, Text ''No'',
       Text ''  '', Text '' '', Text '''', Text [CHR 0x09], Text ''   '']"
  have 1: "distinct (header blank_cells_csv)" by code_simp
  have 2: "set tag_fields \<subseteq> set (header blank_cells_csv)" by code_simp
  have 3: "fits blank_cells_csv" by code_simp
  have 4: "?fs \<in> set (body blank_cells_csv)" by (simp add: blank_cells_csv_def)
  have 5: "length ?fs = length (header blank_cells_csv)"
    by (simp add: blank_cells_csv_def input_header_def)
  from loader_absent_cells [OF 1 2 3 4 5, of pandas_default_na] obtain df r where
    run: "load_data pandas_default_na blank_cells_csv = Inr df" and mem: "r \<in> set (rows df)"
    and cells: "\<forall>j < length ?fs.
          header blank_cells_csv ! j \<notin> {''TagCompletenessScore'', ''TagCompletenessPercentage''} \<longrightarrow>
          cell_at r (header blank_cells_csv ! j) =
            (case ?fs ! j of
               Text s \<Rightarrow> if s = '''' \<or> s = '' '' \<or> s \<in> set pandas_default_na then NaN else Str s
             | Number q \<Rightarrow> Num q)"
    by blast
  have "cell_at r ''Department'' = Str ''  ''"
    using cells [rule_format, of 5]
    by (simp add: blank_cells_csv_def input_header_def pandas_default_na_def)
  moreover have "cell_at r ''Project'' = NaN"
    using cells [rule_format, of 6] by (simp add: blank_cells_csv_def input_header_def)
  moreover have "cell_at r ''Environment'' = NaN"
    using cells [rule_format, of 7] by (simp add: blank_cells_csv_def input_header_def)
  ultimately show ?thesis using run mem by blast
qed

text \<open>
  C7, as claimed: a document without one of \<open>ResourceID\<close>, \<open>MonthlyCostUSD\<close>, \<open>Tagged\<close>,
  \<open>Service\<close>, \<open>Region\<close> makes the loader fail with a \<open>SchemaError\<close>. It does not:
  \<open>tags_only_csv\<close> has none of the five, and the loader returns its frame.
\<close>

theorem loader_accepts_missing_required_columns:
  "load_data pandas_default_na tags_only_csv =
     Inr \<lparr>columns = [''Department'', ''Project'', ''Environment'', ''Owner'', ''CostCenter'',
            ''TagCompletenessScore'', ''TagCompletenessPercentage''],
          rows = [[(''Department'', Str ''Eng''), (''Project'', Str ''X''), (''Environment'', NaN),
            (''Owner'', Str ''Bob''), (''CostCenter'', NaN), (''TagCompletenessScore'', Num 3),
            (''TagCompletenessPercentage'', Num 60)]]\<rparr>"
  by code_simp

text \<open>
  C7, amended. The empty document makes \<open>read_csv\<close> fail with \<open>EmptyDataError\<close>.
  For a document with a header of distinct column names in which no record is longer
  than the header, the columns the loader needs are the five tag fields: with all of
  them in the header it returns the loaded frame, whatever else is missing; without one
  of them it fails with a \<open>KeyError\<close> that names the missing tag fields, and returns
  no frame. The source has no \<open>SchemaError\<close>.
\<close>

theorem loader_fails_iff_tag_field_missing:
  "(header raw = [] \<longrightarrow> load_data dflt raw = Inl EmptyDataError)
   \<and> (header raw \<noteq> [] \<and> distinct (header raw) \<and> fits raw \<longrightarrow>
       (set tag_fields \<subseteq> set (header raw) \<longrightarrow> load_data dflt raw = Inr (loaded dflt raw))
       \<and> (\<not> set tag_fields \<subseteq> set (header raw) \<longrightarrow>
          load_data dflt raw = Inl (KeyError (filter (\<lambda>c. c \<notin> set (header raw)) tag_fields))))"
proof (intro conjI impI)
  assume "header raw = []"
  then show "load_data dflt raw = Inl EmptyDataError"
    by (simp add: load_data_def read_csv_empty and_then_def)
next
  assume a: "header raw \<noteq> [] \<and> distinct (header raw) \<and> fits raw"
  then have e: "load_data dflt raw =
     (if set tag_fields \<subseteq> set (header raw) then Inr (loaded dflt raw)
      else Inl (KeyError (filter (\<lambda>c. c \<notin> set (header raw)) tag_fields)))"
    by (intro load_data_eq) simp_all
  {
    assume "set tag_fields \<subseteq> set (header raw)"
    then show "load_data dflt raw = Inr (loaded dflt raw)"
      by (simp add: e)
  next
    assume "\<not> set tag_fields \<subseteq> set (header raw)"
    then show "load_data dflt raw = Inl (KeyError (filter (\<lambda>c. c \<notin> set (header raw)) tag_fields))"
      by (simp add: e)
  }
qed

theorem loader_fails_iff_tag_field_missing_witness:
  "load_data pandas_default_na no_owner_csv = Inl (KeyError [''Owner''])
   \<and> load_data pandas_default_na tags_only_csv = Inr (loaded pandas_default_na tags_only_csv)
   \<and> load_data pandas_default_na empty_csv = Inl EmptyDataError"
proof -
  have 1: "\<not> set tag_fields \<subseteq> set (header no_owner_csv)" by code_simp
  have 2: "set tag_fields \<subseteq> set (header tags_only_csv)" by code_simp
  have 3: "filter (\<lambda>c. c \<notin> set (header no_owner_csv)) tag_fields = [''Owner'']" by code_simp
  have 4: "header no_owner_csv \<noteq> [] \<and> distinct (header no_owner_csv) \<and> fits no_owner_csv"
    by code_simp
  have 5: "header tags_only_csv \<noteq> [] \<and> distinct (header tags_only_csv) \<and> fits tags_only_csv"
    by code_simp
  have 6: "header empty_csv = []" by code_simp
  from loader_fails_iff_tag_field_missing [of no_owner_csv pandas_default_na] 1 3 4
  have "load_data pandas_default_na no_owner_csv = Inl (KeyError [''Owner''])" by simp
  moreover from loader_fails_iff_tag_field_missing [of tags_only_csv pandas_default_na] 2 5
  have "load_data pandas_default_na tags_only_csv = Inr (loaded pandas_default_na tags_only_csv)"
    by simp
  moreover from loader_fails_iff_tag_field_missing [of empty_csv pandas_default_na] 6
  have "load_data pandas_default_na empty_csv = Inl EmptyDataError"
    by simp
  ultimately show ?thesis by simp
qed

section \<open>Export and load\<close>


































end
